theory Spec2Isabelle
  imports Complex_Main
begin

unbundle bit_operations_syntax

section \<open>The interactive EER diagram of SQL\_Editor.py\<close>

text \<open>
  The diagram code lives in \<^verbatim>\<open>class TableNode\<close> and in the method
  \<^verbatim>\<open>_show_interactive_eer\<close> with its nested handlers \<^verbatim>\<open>set_zoom\<close>,
  \<^verbatim>\<open>wheel_zoom\<close>, \<^verbatim>\<open>_update_edges\<close> and \<^verbatim>\<open>apply_layout\<close>.

  Numbers. Canvas coordinates and zoom scales are Python numbers that are integers at
  first (\<^verbatim>\<open>80 + col * 320\<close>, Tk event coordinates) and become floats as soon as a
  true division, \<^verbatim>\<open>math.cos\<close> or \<^verbatim>\<open>canvas.canvasx\<close> is involved. They are modelled
  by their mathematical value, a \<^typ>\<open>real\<close>: integer arithmetic is exact in Python as it
  is here, while the rounding of floating-point operations is not modelled. Counters and
  indices (\<^verbatim>\<open>index\<close>, \<^verbatim>\<open>i\<close>, \<^verbatim>\<open>cols\<close>) are natural numbers.

  Effects. The Tk canvas is modelled as far as the foreign-key lines and their labels go:
  a list of items whose position in the list is the item id. The graphics of the table
  boxes (\<^verbatim>\<open>TableNode.draw\<close>, \<^verbatim>\<open>canvas.move\<close> of a node's tag) and the scroll region
  live inside Tk and are left out. Exceptions are values of \<open>py_error\<close>.
\<close>

subsection \<open>TableNode\<close>

definition BOX_WIDTH :: int where "BOX_WIDTH = 220"
definition HEADER_H :: int where "HEADER_H = 28"
definition ROW_H :: int where "ROW_H = 20"
definition PAD :: int where "PAD = 6"
definition BOTTOM_PAD :: int where "BOTTOM_PAD = 8"

record TableNode =
  name :: string
  cols :: "string list"
  x :: real
  y :: real
  width :: int
  height :: int

text \<open>\<^verbatim>\<open>TableNode.__init__(canvas, name, cols, x, y)\<close>.\<close>

definition TableNode_init :: "string \<Rightarrow> string list \<Rightarrow> real \<Rightarrow> real \<Rightarrow> TableNode" where
  "TableNode_init nm cs px py =
     \<lparr>name = nm, cols = cs, x = px, y = py, width = BOX_WIDTH,
      height = HEADER_H + int (length cs) * ROW_H + PAD + BOTTOM_PAD\<rparr>"

text \<open>\<^verbatim>\<open>TableNode.move(dx, dy)\<close>: \<^verbatim>\<open>self.x += dx; self.y += dy\<close>, with no test of the
  new position.\<close>

definition move :: "TableNode \<Rightarrow> real \<Rightarrow> real \<Rightarrow> TableNode" where
  "move nd dx dy = nd\<lparr>x := x nd + dx, y := y nd + dy\<rparr>"

subsection \<open>Python dictionaries and exceptions\<close>

datatype py_error = KeyError | ZeroDivisionError

text \<open>A \<^verbatim>\<open>dict\<close> keeps its keys in insertion order: an association list. \<^verbatim>\<open>d[k] = v\<close>
  replaces the value of a key that is there and appends a new key otherwise; \<^verbatim>\<open>d[k]\<close>
  raises \<^verbatim>\<open>KeyError\<close> on a missing key.\<close>

fun dict_set :: "('k \<times> 'v) list \<Rightarrow> 'k \<Rightarrow> 'v \<Rightarrow> ('k \<times> 'v) list" where
  "dict_set [] k v = [(k, v)]"
| "dict_set ((k', v') # d) k v =
     (if k' = k then (k', v) # d else (k', v') # dict_set d k v)"

definition dict_get :: "('k \<times> 'v) list \<Rightarrow> 'k \<Rightarrow> py_error + 'v" where
  "dict_get d k = (case map_of d k of None \<Rightarrow> Inl KeyError | Some v \<Rightarrow> Inr v)"

subsection \<open>Foreign keys, edges and the canvas items of the edges\<close>

record foreign_key =
  table :: string
  col :: string
  ref_table :: string
  ref_col :: string

text \<open>A canvas item: a line with its four coordinates and fill colour, or a text with its
  position, its text and fill colour. The id of an item is its position in the canvas.\<close>

datatype item = Line real real real real string | Text real real string string

text \<open>The dictionary \<^verbatim>\<open>{"line": lid, "label": label_id, "from": t, "to": rt, "fk": fk}\<close>
  (the keys \<^verbatim>\<open>from\<close> and \<^verbatim>\<open>to\<close> are written \<open>from_table\<close> and \<open>to_table\<close>).\<close>

record edge =
  line :: nat
  label :: nat
  from_table :: string
  to_table :: string
  fk :: foreign_key

record diagram =
  nodes :: "(string \<times> TableNode) list"
  edges :: "edge list"
  canvas :: "item list"

definition colors :: "string list" where
  "colors = [''#ff5555'', ''#55aa55'', ''#5577dd'', ''#ffaa00'', ''#bb44cc'']"

text \<open>\<^verbatim>\<open>canvas.create_line\<close> and \<^verbatim>\<open>canvas.create_text\<close> return the id of the new item.\<close>

definition create_line :: "item list \<Rightarrow> real \<Rightarrow> real \<Rightarrow> real \<Rightarrow> real \<Rightarrow> string \<Rightarrow> nat \<times> item list" where
  "create_line c x1 y1 x2 y2 fill = (length c, c @ [Line x1 y1 x2 y2 fill])"

definition create_text :: "item list \<Rightarrow> real \<Rightarrow> real \<Rightarrow> string \<Rightarrow> string \<Rightarrow> nat \<times> item list" where
  "create_text c px py txt fill = (length c, c @ [Text px py txt fill])"

text \<open>\<^verbatim>\<open>canvas.coords(id, ...)\<close> with new coordinates: no item of that id, nothing happens;
  a number of coordinates the item does not take is a \<^verbatim>\<open>TclError\<close> (\<open>None\<close>).\<close>

definition coords :: "item list \<Rightarrow> nat \<Rightarrow> real list \<Rightarrow> item list option" where
  "coords c i cs =
     (if length c \<le> i then Some c
      else (case (c ! i, cs) of
              (Line _ _ _ _ fill, [x1, y1, x2, y2]) \<Rightarrow> Some (c[i := Line x1 y1 x2 y2 fill])
            | (Text _ _ txt fill, [px, py]) \<Rightarrow> Some (c[i := Text px py txt fill])
            | _ \<Rightarrow> None))"

text \<open>The f-string \<^verbatim>\<open>f"{t}.{col} -> {rt}.{ref_col}"\<close>, whose arrow is the character U+2192,
  three bytes in UTF-8.\<close>

definition arrow :: string where
  "arrow = [CHR 0xE2, CHR 0x86, CHR 0x92]"

definition label_text :: "string \<Rightarrow> string \<Rightarrow> string \<Rightarrow> string \<Rightarrow> string" where
  "label_text t c rt rc = t @ ''.'' @ c @ '' '' @ arrow @ '' '' @ rt @ ''.'' @ rc"

subsection \<open>Building the nodes and edges (\<^verbatim>\<open>_show_interactive_eer\<close>)\<close>

text \<open>\<^verbatim>\<open>int((n ** 0.5) + 0.5)\<close> for a length \<open>n\<close>: the square root rounded to the nearest
  integer (\<^verbatim>\<open>int\<close> truncates, and the argument is positive).\<close>

definition int_sqrt_half :: "nat \<Rightarrow> nat" where
  "int_sqrt_half n = nat \<lfloor>sqrt (real n) + 1 / 2\<rfloor>"

text \<open>The same number by a search over the integers, for evaluation: the least \<open>k\<close> with
  \<open>n \<le> k * k + k\<close> (lemma \<open>int_sqrt_half_code\<close>).\<close>

fun sqrt_search :: "nat \<Rightarrow> nat \<Rightarrow> nat \<Rightarrow> nat" where
  "sqrt_search 0 k n = k"
| "sqrt_search (Suc f) k n = (if n \<le> k * k + k then k else sqrt_search f (Suc k) n)"

text \<open>The loop \<^verbatim>\<open>for t in tables\<close>, with the running \<^verbatim>\<open>index\<close> and the dictionary
  \<^verbatim>\<open>nodes\<close>. \<^verbatim>\<open>gv_positions\<close> is \<^verbatim>\<open>None\<close> or a dictionary of positions; \<^verbatim>\<open>None\<close> and
  the empty dictionary are false.\<close>

fun place_nodes ::
  "(string \<times> real \<times> real) list option \<Rightarrow> (string \<times> string list) list \<Rightarrow> nat \<Rightarrow>
   string list \<Rightarrow> nat \<Rightarrow> (string \<times> TableNode) list \<Rightarrow> py_error + (string \<times> TableNode) list" where
  "place_nodes gv_positions schema cols_grid [] index nds = Inr nds"
| "place_nodes gv_positions schema cols_grid (t # ts) index nds =
     (let (px, py, index') =
            (case (case gv_positions of None \<Rightarrow> None | Some g \<Rightarrow> map_of g t) of
               Some (gx, gy) \<Rightarrow> (gx, gy, index)
             | None \<Rightarrow>
                 (let row = index div cols_grid; col = index mod cols_grid
                  in (80 + real col * 320, 80 + real row * 220, index + 1)))
      in (case dict_get schema t of
            Inl e \<Rightarrow> Inl e
          | Inr cs \<Rightarrow>
              place_nodes gv_positions schema cols_grid ts index'
                (dict_set nds t (TableNode_init t cs px py))))"

text \<open>The loop \<^verbatim>\<open>for i, fk in enumerate(fk_list)\<close>, with the list \<^verbatim>\<open>edges\<close> and the
  canvas.\<close>

fun add_edges ::
  "(string \<times> TableNode) list \<Rightarrow> (nat \<times> foreign_key) list \<Rightarrow> edge list \<Rightarrow> item list \<Rightarrow>
   edge list \<times> item list" where
  "add_edges nds [] es c = (es, c)"
| "add_edges nds ((i, k) # fks) es c =
     (case (map_of nds (table k), map_of nds (ref_table k)) of
        (Some na, Some nb) \<Rightarrow>
          (let x1 = x na + real_of_int (width na);
               y1 = y na + real_of_int HEADER_H + real_of_int ROW_H / 2;
               x2 = x nb;
               y2 = y nb + real_of_int HEADER_H + real_of_int ROW_H / 2;
               color = colors ! (i mod length colors);
               (lid, c1) = create_line c x1 y1 x2 y2 color;
               lbl = label_text (table k) (col k) (ref_table k) (ref_col k);
               mx = (x1 + x2) / 2;
               my = (y1 + y2) / 2;
               (label_id, c2) = create_text c1 mx (my - 12) lbl color
           in add_edges nds fks
                (es @ [\<lparr>line = lid, label = label_id, from_table = table k,
                        to_table = ref_table k, fk = k\<rparr>]) c2)
      | _ \<Rightarrow> add_edges nds fks es c)"

text \<open>The part of \<^verbatim>\<open>_show_interactive_eer(parent_window, schema, gv_positions)\<close> that
  builds the diagram; \<open>fk_list\<close> is what \<^verbatim>\<open>self._get_foreign_keys()\<close> returned. With no
  table the method draws a message and returns before any node exists: \<open>None\<close>.\<close>

definition show_interactive_eer ::
  "(string \<times> string list) list \<Rightarrow> (string \<times> real \<times> real) list option \<Rightarrow> foreign_key list \<Rightarrow>
   py_error + diagram option" where
  "show_interactive_eer schema gv_positions fk_list =
     (let tables = map fst schema in
      if tables = [] then Inr None
      else
        (let cols_grid = max 1 (int_sqrt_half (length tables)) in
         case place_nodes gv_positions schema cols_grid tables 0 [] of
           Inl e \<Rightarrow> Inl e
         | Inr nds \<Rightarrow>
             (let (es, c) = add_edges nds (enumerate 0 fk_list) [] []
              in Inr (Some \<lparr>nodes = nds, edges = es, canvas = c\<rparr>))))"

subsection \<open>Redrawing the edges (\<^verbatim>\<open>_update_edges\<close>)\<close>

text \<open>The body of the loop for one edge. \<^verbatim>\<open>nodes[e["from"]]\<close> and \<^verbatim>\<open>nodes[e["to"]]\<close> stand
  before the \<^verbatim>\<open>try\<close> and may raise \<^verbatim>\<open>KeyError\<close>; inside the \<^verbatim>\<open>try\<close> a failing
  \<^verbatim>\<open>canvas.coords\<close> skips what follows it, and the exception is dropped.\<close>

definition update_edge :: "(string \<times> TableNode) list \<Rightarrow> edge \<Rightarrow> item list \<Rightarrow> py_error + item list" where
  "update_edge nds e c =
     (case dict_get nds (from_table e) of
        Inl err \<Rightarrow> Inl err
      | Inr na \<Rightarrow>
         (case dict_get nds (to_table e) of
            Inl err \<Rightarrow> Inl err
          | Inr nb \<Rightarrow>
             (let x1 = x na + real_of_int (width na);
                  y1 = y na + real_of_int HEADER_H + real_of_int ROW_H / 2;
                  x2 = x nb;
                  y2 = y nb + real_of_int HEADER_H + real_of_int ROW_H / 2
              in (case coords c (line e) [x1, y1, x2, y2] of
                    None \<Rightarrow> Inr c
                  | Some c1 \<Rightarrow>
                     (let mx = (x1 + x2) / 2; my = (y1 + y2) / 2
                      in (case coords c1 (label e) [mx, my - 12] of
                            None \<Rightarrow> Inr c1
                          | Some c2 \<Rightarrow> Inr c2))))))"

fun update_edges :: "(string \<times> TableNode) list \<Rightarrow> edge list \<Rightarrow> item list \<Rightarrow> py_error + item list" where
  "update_edges nds [] c = Inr c"
| "update_edges nds (e # es) c =
     (case update_edge nds e c of Inl err \<Rightarrow> Inl err | Inr c' \<Rightarrow> update_edges nds es c')"

subsection \<open>Layouts (\<^verbatim>\<open>apply_layout\<close>)\<close>

text \<open>What the layouts read of the window: \<^verbatim>\<open>canvas.winfo_width()\<close>,
  \<^verbatim>\<open>canvas.winfo_height()\<close>, and Tk's \<^verbatim>\<open>canvas.canvasx\<close> and \<^verbatim>\<open>canvas.canvasy\<close>, which give
  the canvas coordinate shown at a window coordinate.\<close>

record viewport =
  winfo_width :: int
  winfo_height :: int
  canvasx :: "int \<Rightarrow> real"
  canvasy :: "int \<Rightarrow> real"

text \<open>The loop of the branch \<^verbatim>\<open>mode == "grid"\<close> over \<^verbatim>\<open>nodes.items()\<close>, with the counter
  \<^verbatim>\<open>i\<close>.\<close>

fun grid_loop :: "nat \<Rightarrow> nat \<Rightarrow> (string \<times> TableNode) list \<Rightarrow> (string \<times> TableNode) list" where
  "grid_loop cols_n i [] = []"
| "grid_loop cols_n i ((tname, nd) # rest) =
     (let row = i div cols_n; col = i mod cols_n;
          target_x = 80 + real col * 320; target_y = 80 + real row * 220;
          dx = target_x - x nd; dy = target_y - y nd
      in (tname, move nd dx dy) # grid_loop cols_n (i + 1) rest)"

text \<open>The loop of the branch \<^verbatim>\<open>mode == "radial"\<close>.\<close>

fun radial_loop ::
  "real \<Rightarrow> real \<Rightarrow> int \<Rightarrow> nat \<Rightarrow> nat \<Rightarrow> (string \<times> TableNode) list \<Rightarrow> (string \<times> TableNode) list" where
  "radial_loop center_x center_y radius total_n i [] = []"
| "radial_loop center_x center_y radius total_n i ((tname, nd) # rest) =
     (let ang = (2 * pi * real i) / real total_n;
          target_x = center_x + cos ang * real_of_int radius;
          target_y = center_y + sin ang * real_of_int radius;
          dx = target_x - x nd; dy = target_y - y nd
      in (tname, move nd dx dy) # radial_loop center_x center_y radius total_n (i + 1) rest)"

definition apply_layout :: "string \<Rightarrow> viewport \<Rightarrow> diagram \<Rightarrow> py_error + diagram" where
  "apply_layout mode vp d =
     (let count = length (nodes d) in
      if count = 0 then Inr d
      else
        (let nds =
               (if mode = ''grid'' then
                  (let cols_n = max 1 (int_sqrt_half count) in grid_loop cols_n 0 (nodes d))
                else if mode = ''radial'' then
                  (let center_x = canvasx vp (winfo_width vp div 2);
                       center_y = canvasy vp (winfo_height vp div 2);
                       radius = max 200 (min 800 (int (length (nodes d)) * 40));
                       total_n = length (nodes d)
                   in radial_loop center_x center_y radius total_n 0 (nodes d))
                else nodes d)
         in (case update_edges nds (edges d) (canvas d) of
               Inl err \<Rightarrow> Inl err
             | Inr c \<Rightarrow> Inr (d\<lparr>nodes := nds, canvas := c\<rparr>))))"

subsection \<open>Zoom (\<^verbatim>\<open>set_zoom\<close>, \<^verbatim>\<open>wheel_zoom\<close>)\<close>

text \<open>The zoom state: \<^verbatim>\<open>current_scale["s"]\<close>, the Tk variable \<^verbatim>\<open>zoom_var\<close> of the slider,
  and the calls \<^verbatim>\<open>_apply_scale_at(cx, cy, factor)\<close> made so far, latest last. What
  \<^verbatim>\<open>canvas.scale\<close> does to the items happens inside Tk and is not modelled.\<close>

record zoom_state =
  current_scale :: real
  zoom_var :: real
  scale_calls :: "(real \<times> real \<times> real) list"

text \<open>\<^verbatim>\<open>set_zoom(val)\<close>, the write trace of \<^verbatim>\<open>zoom_var\<close>; \<open>val\<close> is the float the variable
  holds.\<close>

definition set_zoom :: "viewport \<Rightarrow> real \<Rightarrow> zoom_state \<Rightarrow> py_error + zoom_state" where
  "set_zoom vp val st =
     (if val \<le> 0 then Inr st
      else if \<bar>val - current_scale st\<bar> < 1 / 1000000 then Inr st
      else if current_scale st = 0 then Inl ZeroDivisionError
      else
        (let factor = val / current_scale st;
             cx = canvasx vp (winfo_width vp div 2);
             cy = canvasy vp (winfo_height vp div 2)
         in Inr (st\<lparr>current_scale := val, scale_calls := scale_calls st @ [(cx, cy, factor)]\<rparr>)))"



subsection \<open>The slider of the zoom\<close>


section \<open>Predicates of the properties\<close>

text \<open>Every edge names two nodes of the dictionary: what \<^verbatim>\<open>_update_edges\<close> needs to run
  without a \<^verbatim>\<open>KeyError\<close>.\<close>

definition edges_known :: "(string \<times> TableNode) list \<Rightarrow> edge list \<Rightarrow> bool" where
  "edges_known nds es =
     list_all (\<lambda>e. map_of nds (from_table e) \<noteq> None \<and> map_of nds (to_table e) \<noteq> None) es"

definition edge_ids :: "edge list \<Rightarrow> nat list" where
  "edge_ids es = concat (map (\<lambda>e. [line e, label e]) es)"

text \<open>The two items of an edge are on the canvas: a line, and a text that reads
  \<^verbatim>\<open>{from_table}.{from_column} -> {to_table}.{to_column}\<close> for the foreign key of the edge.\<close>

definition edge_items_ok :: "item list \<Rightarrow> edge \<Rightarrow> bool" where
  "edge_items_ok c e =
     (line e < length c \<and> label e < length c
      \<and> (case c ! line e of Line _ _ _ _ _ \<Rightarrow> True | _ \<Rightarrow> False)
      \<and> (case c ! label e of
            Text _ _ txt _ \<Rightarrow>
              txt = label_text (table (fk e)) (col (fk e)) (ref_table (fk e)) (ref_col (fk e))
          | _ \<Rightarrow> False)
      \<and> from_table e = table (fk e) \<and> to_table e = ref_table (fk e))"

text \<open>A well-formed diagram: the edges name nodes that exist and their items are on the
  canvas, no item shared. The diagrams the code builds are well formed (lemma \<open>build_wf\<close>),
  and stay so when nodes are dragged (lemma \<open>diagram_wf_moved\<close>) and when the edges are
  redrawn (lemma \<open>update_edges_wf\<close>).\<close>

definition diagram_wf :: "diagram \<Rightarrow> bool" where
  "diagram_wf d =
     (edges_known (nodes d) (edges d) \<and> distinct (edge_ids (edges d))
      \<and> list_all (edge_items_ok (canvas d)) (edges d))"

text \<open>What the code draws for an edge, for the nodes as they are: the line runs from the
  right side of the source box to the left side of the target box, both ends
  \<open>HEADER_H + ROW_H / 2 = 38\<close> below the top of the box (the middle of the first column
  row), and the label stands 12 above the middle of the line.\<close>

definition edge_drawn :: "(string \<times> TableNode) list \<Rightarrow> item list \<Rightarrow> edge \<Rightarrow> bool" where
  "edge_drawn nds c e =
     (case (map_of nds (from_table e), map_of nds (to_table e)) of
        (Some na, Some nb) \<Rightarrow>
          line e < length c \<and> label e < length c
          \<and> (case c ! line e of
                Line x1 y1 x2 y2 _ \<Rightarrow>
                  x1 = x na + real_of_int (width na) \<and> y1 = y na + 38
                  \<and> x2 = x nb \<and> y2 = y nb + 38
              | _ \<Rightarrow> False)
          \<and> (case c ! label e of
                Text px py txt _ \<Rightarrow>
                  px = (x na + real_of_int (width na) + x nb) / 2
                  \<and> py = (y na + 38 + (y nb + 38)) / 2 - 12
                  \<and> txt = label_text (table (fk e)) (col (fk e)) (ref_table (fk e)) (ref_col (fk e))
              | _ \<Rightarrow> False)
      | _ \<Rightarrow> False)"

text \<open>What the specification says is drawn for an edge: both ends at the vertical middle
  of the header band, \<open>HEADER_H / 2\<close> below the top of the box, and the label at the middle
  of the line.\<close>

definition spec_edge_drawn :: "(string \<times> TableNode) list \<Rightarrow> item list \<Rightarrow> edge \<Rightarrow> bool" where
  "spec_edge_drawn nds c e =
     (case (map_of nds (from_table e), map_of nds (to_table e)) of
        (Some na, Some nb) \<Rightarrow>
          line e < length c \<and> label e < length c
          \<and> (case c ! line e of
                Line x1 y1 x2 y2 _ \<Rightarrow>
                  x1 = x na + real_of_int (width na) \<and> y1 = y na + real_of_int HEADER_H / 2
                  \<and> x2 = x nb \<and> y2 = y nb + real_of_int HEADER_H / 2
              | _ \<Rightarrow> False)
          \<and> (case c ! label e of
                Text px py txt _ \<Rightarrow>
                  px = (x na + real_of_int (width na) + x nb) / 2
                  \<and> py = (y na + real_of_int HEADER_H / 2 + (y nb + real_of_int HEADER_H / 2)) / 2
                  \<and> txt = label_text (table (fk e)) (col (fk e)) (ref_table (fk e)) (ref_col (fk e))
              | _ \<Rightarrow> False)
      | _ \<Rightarrow> False)"

text \<open>The position of every node, in the order of the dictionary.\<close>

definition positions :: "(string \<times> TableNode) list \<Rightarrow> (real \<times> real) list" where
  "positions nds = map (\<lambda>p. (x (snd p), y (snd p))) nds"

text \<open>The grid as the specification words it: \<open>ceil(sqrt(node_count))\<close> columns, filled in
  row-major order at the pitch and origin of the code.\<close>

definition spec_grid_cols :: "nat \<Rightarrow> nat" where
  "spec_grid_cols n = nat \<lceil>sqrt (real n)\<rceil>"

definition spec_grid_positions :: "nat \<Rightarrow> (real \<times> real) list" where
  "spec_grid_positions n =
     map (\<lambda>i. (80 + real (i mod spec_grid_cols n) * 320, 80 + real (i div spec_grid_cols n) * 220))
       [0..<n]"

subsection \<open>The schema of the scenarios\<close>

definition example_schema :: "(string \<times> string list) list" where
  "example_schema = [(''users'', [''id'', ''name'']), (''orders'', [''id'', ''user_id''])]"

definition example_fk :: foreign_key where
  "example_fk = \<lparr>table = ''orders'', col = ''user_id'', ref_table = ''users'', ref_col = ''id''\<rparr>"

definition archived_fk :: foreign_key where
  "archived_fk =
     \<lparr>table = ''orders'', col = ''log_id'', ref_table = ''archived_logs'', ref_col = ''id''\<rparr>"

definition example_viewport :: viewport where
  "example_viewport =
     \<lparr>winfo_width = 1400, winfo_height = 800, canvasx = real_of_int, canvasy = real_of_int\<rparr>"

text \<open>The diagram the code builds for the schema and its foreign key (lemma
  \<open>example_build\<close>): one column, \<^verbatim>\<open>users\<close> above \<^verbatim>\<open>orders\<close>.\<close>

definition example_diagram :: diagram where
  "example_diagram =
     \<lparr>nodes = [(''users'', \<lparr>name = ''users'', cols = [''id'', ''name''], x = 80, y = 80,
                            width = 220, height = 82\<rparr>),
               (''orders'', \<lparr>name = ''orders'', cols = [''id'', ''user_id''], x = 80, y = 300,
                             width = 220, height = 82\<rparr>)],
      edges = [\<lparr>line = 0, label = 1, from_table = ''orders'', to_table = ''users'',
                fk = example_fk\<rparr>],
      canvas = [Line 300 338 80 118 ''#ff5555'',
                Text 190 216 (''orders.user_id '' @ arrow @ '' users.id'') ''#ff5555'']\<rparr>"

text \<open>The same diagram after both boxes were dragged by \<open>(15, -40)\<close>, the edges not yet
  redrawn.\<close>

definition dragged_diagram :: diagram where
  "dragged_diagram =
     example_diagram\<lparr>nodes := map (\<lambda>p. (fst p, move (snd p) 15 (- 40))) (nodes example_diagram)\<rparr>"



section \<open>Properties\<close>

subsection \<open>Auxiliary facts\<close>

text \<open>The rounded square root is the \<open>k\<close> with \<open>k\<^sup>2 - k < n \<le> k\<^sup>2 + k\<close>.\<close>

lemma int_sqrt_half_unique:
  assumes k: "0 < k" and lo: "k * k < n + k" and hi: "n \<le> k * k + k"
  shows "int_sqrt_half n = k"
proof -
  have "k * k + 1 \<le> n + k" using lo by simp
  then have "real (k * k + 1) \<le> real (n + k)" by (simp only: of_nat_le_iff)
  then have lo': "(real k - 1/2)\<^sup>2 \<le> real n"
    by (simp add: power2_eq_square algebra_simps)
  have "real n \<le> real (k * k + k)" using hi by (simp only: of_nat_le_iff)
  then have hi': "real n < (real k + 1/2)\<^sup>2"
    by (simp add: power2_eq_square algebra_simps)
  have a: "real k - 1/2 \<le> sqrt (real n)" using lo' by (rule real_le_rsqrt)
  have b: "sqrt (real n) < real k + 1/2" using hi' k by (intro real_less_lsqrt) simp_all
  have "\<lfloor>sqrt (real n) + 1 / 2\<rfloor> = int k"
    by (rule floor_unique) (use a b in simp_all)
  then show ?thesis by (simp add: int_sqrt_half_def)
qed

lemma sqrt_search_spec:
  "k = 0 \<or> (k - 1) * (k - 1) + (k - 1) < n \<Longrightarrow> n \<le> (k + f) * (k + f) + (k + f) \<Longrightarrow>
   n \<le> sqrt_search f k n * sqrt_search f k n + sqrt_search f k n
   \<and> (sqrt_search f k n = 0
        \<or> (sqrt_search f k n - 1) * (sqrt_search f k n - 1) + (sqrt_search f k n - 1) < n)"
proof (induction f arbitrary: k)
  case 0
  then show ?case by simp
next
  case (Suc f)
  show ?case
  proof (cases "n \<le> k * k + k")
    case True
    then show ?thesis using Suc.prems(1) by simp
  next
    case False
    then have a: "Suc k = 0 \<or> (Suc k - 1) * (Suc k - 1) + (Suc k - 1) < n" by simp
    have b: "n \<le> (Suc k + f) * (Suc k + f) + (Suc k + f)" using Suc.prems(2) by simp
    from Suc.IH[OF a b] False show ?thesis by simp
  qed
qed

lemma int_sqrt_half_code [code]: "int_sqrt_half n = sqrt_search n 0 n"
proof -
  define r where "r = sqrt_search n 0 n"
  have "n \<le> (0 + n) * (0 + n) + (0 + n)" by simp
  with sqrt_search_spec[of 0 n n] have
    hi: "n \<le> r * r + r" and lo: "r = 0 \<or> (r - 1) * (r - 1) + (r - 1) < n"
    by (simp_all add: r_def)
  show ?thesis
  proof (cases "r = 0")
    case True
    with hi have "n = 0" by simp
    then show ?thesis using True by (simp add: int_sqrt_half_def r_def[symmetric])
  next
    case False
    then obtain q where q: "r = Suc q" by (cases r) auto
    with lo have "q * q + q < n" by simp
    then have "r * r < n + r" by (simp add: q)
    from int_sqrt_half_unique[OF _ this hi] False show ?thesis by (simp add: r_def)
  qed
qed

lemma dict_set_fresh: "k \<notin> fst ` set d \<Longrightarrow> dict_set d k v = d @ [(k, v)]"
  by (induction d) auto

lemma dict_get_Some: "map_of d k = Some v \<Longrightarrow> dict_get d k = Inr v"
  by (simp add: dict_get_def)

lemma dict_get_key: "k \<in> fst ` set d \<Longrightarrow> dict_get d k = Inr (the (map_of d k))"
  by (cases "map_of d k") (auto simp: dict_get_def map_of_eq_None_iff)

lemma place_nodes_any:
  "distinct ts \<Longrightarrow> set ts \<inter> fst ` set nds = {} \<Longrightarrow> set ts \<subseteq> fst ` set schema \<Longrightarrow>
   \<exists>r. place_nodes gv schema c ts i nds = Inr (nds @ r) \<and> map fst r = ts
     \<and> map (\<lambda>p. name (snd p)) r = ts
     \<and> map (\<lambda>p. cols (snd p)) r = map (\<lambda>t. the (map_of schema t)) ts
     \<and> map (\<lambda>p. width (snd p)) r = map (\<lambda>t. BOX_WIDTH) ts"
proof (induction ts arbitrary: i nds)
  case Nil
  then show ?case by simp
next
  case (Cons t ts)
  obtain px py i' where pos:
    "(case (case gv of None \<Rightarrow> None | Some g \<Rightarrow> map_of g t) of
               Some (gx, gy) \<Rightarrow> (gx, gy, i)
             | None \<Rightarrow>
                 (let row = i div c; col = i mod c
                  in (80 + real col * 320, 80 + real row * 220, i + 1))) = (px, py, i')"
    by (metis prod_cases3)
  let ?nd = "TableNode_init t (the (map_of schema t)) px py"
  have get: "dict_get schema t = Inr (the (map_of schema t))"
    using Cons.prems(3) by (intro dict_get_key) simp
  have fresh: "dict_set nds t ?nd = nds @ [(t, ?nd)]"
    using Cons.prems(2) by (intro dict_set_fresh) auto
  have d: "distinct ts" and s: "set ts \<inter> fst ` set (nds @ [(t, ?nd)]) = {}"
    and k: "set ts \<subseteq> fst ` set schema"
    using Cons.prems by auto
  from Cons.IH[OF d s k, of i'] obtain r where
    r: "place_nodes gv schema c ts i' (nds @ [(t, ?nd)]) = Inr ((nds @ [(t, ?nd)]) @ r)"
      "map fst r = ts" "map (\<lambda>p. name (snd p)) r = ts"
      "map (\<lambda>p. cols (snd p)) r = map (\<lambda>t. the (map_of schema t)) ts"
      "map (\<lambda>p. width (snd p)) r = map (\<lambda>t. BOX_WIDTH) ts"
    by blast
  have "place_nodes gv schema c (t # ts) i nds = Inr (nds @ ((t, ?nd) # r))"
    using pos get fresh r(1) by simp
  then show ?case using r(2-) by (intro exI[of _ "(t, ?nd) # r"]) (simp add: TableNode_init_def)
qed


lemma move_to: "move nd (tx - x nd) (ty - y nd) = nd\<lparr>x := tx, y := ty\<rparr>"
  by (simp add: move_def)

lemma grid_loop_map:
  "grid_loop c i nds =
     map (\<lambda>(j, p). (fst p, (snd p)\<lparr>x := 80 + real (j mod c) * 320, y := 80 + real (j div c) * 220\<rparr>))
       (enumerate i nds)"
  by (induction nds arbitrary: i) (auto simp: Let_def move_to)

lemma radial_loop_map:
  "radial_loop cx cy r n i nds =
     map (\<lambda>(j, p). (fst p, (snd p)\<lparr>x := cx + cos (2 * pi * real j / real n) * real_of_int r,
                                   y := cy + sin (2 * pi * real j / real n) * real_of_int r\<rparr>))
       (enumerate i nds)"
  by (induction nds arbitrary: i) (auto simp: Let_def move_to)

lemma int_sqrt_half_2: "int_sqrt_half (Suc (Suc 0)) = Suc 0"
  by (rule int_sqrt_half_unique) simp_all

lemma example_build:
  "show_interactive_eer example_schema None [example_fk] = Inr (Some example_diagram)"
  by (simp add: show_interactive_eer_def example_schema_def example_fk_def example_diagram_def
      int_sqrt_half_2 dict_get_def TableNode_init_def BOX_WIDTH_def HEADER_H_def ROW_H_def
      PAD_def BOTTOM_PAD_def colors_def create_line_def create_text_def label_text_def Let_def)

lemma example_build_archived:
  "show_interactive_eer example_schema None [archived_fk] =
     Inr (Some (example_diagram\<lparr>edges := [], canvas := []\<rparr>))"
  by (simp add: show_interactive_eer_def example_schema_def archived_fk_def example_diagram_def
      int_sqrt_half_2 dict_get_def TableNode_init_def BOX_WIDTH_def HEADER_H_def ROW_H_def
      PAD_def BOTTOM_PAD_def Let_def)

lemma example_grid:
  "apply_layout ''grid'' example_viewport example_diagram = Inr example_diagram"
  by (simp add: apply_layout_def example_diagram_def int_sqrt_half_2 move_def Let_def
      update_edge_def dict_get_def coords_def HEADER_H_def ROW_H_def example_fk_def)

lemma edge_items_ok_append: "edge_items_ok c e \<Longrightarrow> edge_items_ok (c @ c') e"
  by (auto simp: edge_items_ok_def nth_append)

lemma edge_drawn_append: "edge_drawn nds c e \<Longrightarrow> edge_drawn nds (c @ c') e"
  by (auto simp: edge_drawn_def nth_append split: option.splits)

lemma edge_ids_snoc: "edge_ids (es @ [e]) = edge_ids es @ [line e, label e]"
  by (simp add: edge_ids_def)

lemma edge_ids_bound:
  "list_all (edge_items_ok c) es \<Longrightarrow> i \<in> set (edge_ids es) \<Longrightarrow> i < length c"
  by (auto simp: edge_ids_def list_all_iff edge_items_ok_def)

lemma add_edges_fks:
  "add_edges nds fks es c = (es', c') \<Longrightarrow>
   map fk es' = map fk es @
     filter (\<lambda>k. map_of nds (table k) \<noteq> None \<and> map_of nds (ref_table k) \<noteq> None) (map snd fks)"
proof (induction fks arbitrary: es c)
  case Nil
  then show ?case by simp
next
  case (Cons p fks)
  obtain i k where p: "p = (i, k)" by (cases p)
  show ?case
  proof (cases "map_of nds (table k) \<noteq> None \<and> map_of nds (ref_table k) \<noteq> None")
    case True
    then obtain na nb where n: "map_of nds (table k) = Some na" "map_of nds (ref_table k) = Some nb"
      by auto
    from Cons.prems show ?thesis
      unfolding p using n True
      by (simp add: Let_def create_line_def create_text_def) (drule Cons.IH, simp)
  next
    case False
    then have "add_edges nds (p # fks) es c = add_edges nds fks es c"
      unfolding p by (auto split: option.splits)
    with Cons.prems Cons.IH[of es c] False show ?thesis unfolding p by auto
  qed
qed

lemma add_edges_inv:
  "add_edges nds fks es c = (es', c') \<Longrightarrow> edges_known nds es \<Longrightarrow> distinct (edge_ids es) \<Longrightarrow>
   list_all (edge_items_ok c) es \<Longrightarrow> list_all (edge_drawn nds c) es \<Longrightarrow>
   edges_known nds es' \<and> distinct (edge_ids es') \<and> list_all (edge_items_ok c') es'
   \<and> list_all (edge_drawn nds c') es'"
proof (induction fks arbitrary: es c)
  case Nil
  then show ?case by simp
next
  case (Cons p fks)
  obtain i k where p: "p = (i, k)" by (cases p)
  show ?case
  proof (cases "map_of nds (table k) \<noteq> None \<and> map_of nds (ref_table k) \<noteq> None")
    case True
    then obtain na nb where n: "map_of nds (table k) = Some na" "map_of nds (ref_table k) = Some nb"
      by auto
    define x1 where "x1 = x na + real_of_int (width na)"
    define y1 where "y1 = y na + real_of_int HEADER_H + real_of_int ROW_H / 2"
    define y2 where "y2 = y nb + real_of_int HEADER_H + real_of_int ROW_H / 2"
    define color where "color = colors ! (i mod length colors)"
    define lbl where "lbl = label_text (table k) (col k) (ref_table k) (ref_col k)"
    define e where "e = \<lparr>line = length c, label = Suc (length c), from_table = table k,
                        to_table = ref_table k, fk = k\<rparr>"
    define c2 where "c2 = c @ [Line x1 y1 (x nb) y2 color,
                               Text ((x1 + x nb) / 2) ((y1 + y2) / 2 - 12) lbl color]"
    have step: "add_edges nds (p # fks) es c = add_edges nds fks (es @ [e]) c2"
      unfolding p using n
      by (simp add: Let_def create_line_def create_text_def x1_def y1_def y2_def color_def
          lbl_def e_def c2_def)
    have k1: "edges_known nds (es @ [e])"
      using Cons.prems(2) n by (simp add: edges_known_def e_def)
    have bound: "\<And>j. j \<in> set (edge_ids es) \<Longrightarrow> j < length c"
      using Cons.prems(4) edge_ids_bound by blast
    have k2: "distinct (edge_ids (es @ [e]))"
      using Cons.prems(3) bound by (fastforce simp: edge_ids_snoc e_def)
    have enew: "edge_items_ok c2 e"
      by (simp add: edge_items_ok_def e_def c2_def nth_append lbl_def)
    have k3: "list_all (edge_items_ok c2) (es @ [e])"
      using Cons.prems(4) enew by (auto simp: list_all_iff c2_def intro: edge_items_ok_append)
    have dnew: "edge_drawn nds c2 e"
      using n by (simp add: edge_drawn_def e_def c2_def nth_append lbl_def x1_def y1_def y2_def
          HEADER_H_def ROW_H_def)
    have k4: "list_all (edge_drawn nds c2) (es @ [e])"
      using Cons.prems(5) dnew by (auto simp: list_all_iff c2_def intro: edge_drawn_append)
    from Cons.prems(1) have "add_edges nds fks (es @ [e]) c2 = (es', c')"
      by (simp only: step)
    from Cons.IH[OF this k1 k2 k3 k4] show ?thesis .
  next
    case False
    then have "add_edges nds (p # fks) es c = add_edges nds fks es c"
      unfolding p by (auto split: option.splits)
    with Cons.prems(1) have "add_edges nds fks es c = (es', c')" by simp
    from Cons.IH[OF this Cons.prems(2-5)] show ?thesis .
  qed
qed

lemma edge_items_ok_cong:
  "edge_items_ok c e \<Longrightarrow> length c' = length c \<Longrightarrow> c' ! line e = c ! line e \<Longrightarrow>
   c' ! label e = c ! label e \<Longrightarrow> edge_items_ok c' e"
  by (simp add: edge_items_ok_def)

lemma edge_drawn_cong:
  "edge_drawn nds c e \<Longrightarrow> length c' = length c \<Longrightarrow> c' ! line e = c ! line e \<Longrightarrow>
   c' ! label e = c ! label e \<Longrightarrow> edge_drawn nds c' e"
  by (simp add: edge_drawn_def split: option.splits)

lemma update_edge_ok:
  assumes na: "map_of nds (from_table e) = Some na" and nb: "map_of nds (to_table e) = Some nb"
    and ok: "edge_items_ok c e" and ne: "line e \<noteq> label e"
  shows "\<exists>c'. update_edge nds e c = Inr c' \<and> length c' = length c \<and> edge_drawn nds c' e
           \<and> edge_items_ok c' e \<and> (\<forall>j. j \<noteq> line e \<longrightarrow> j \<noteq> label e \<longrightarrow> c' ! j = c ! j)"
proof -
  from ok obtain a1 b1 a2 b2 f where l: "c ! line e = Line a1 b1 a2 b2 f"
    by (cases "c ! line e") (auto simp: edge_items_ok_def)
  from ok obtain p q t g where t: "c ! label e = Text p q t g"
    by (cases "c ! label e") (auto simp: edge_items_ok_def)
  from ok have b: "line e < length c" "label e < length c"
    and tt: "t = label_text (table (fk e)) (col (fk e)) (ref_table (fk e)) (ref_col (fk e))"
    and ft: "from_table e = table (fk e)" "to_table e = ref_table (fk e)"
    using t by (auto simp: edge_items_ok_def)
  define x1 where "x1 = x na + real_of_int (width na)"
  define y1 where "y1 = y na + real_of_int HEADER_H + real_of_int ROW_H / 2"
  define y2 where "y2 = y nb + real_of_int HEADER_H + real_of_int ROW_H / 2"
  define c1 where "c1 = c[line e := Line x1 y1 (x nb) y2 f]"
  define c2 where "c2 = c1[label e := Text ((x1 + x nb) / 2) ((y1 + y2) / 2 - 12) t g]"
  have s1: "coords c (line e) [x1, y1, x nb, y2] = Some c1"
    using b l by (simp add: coords_def c1_def)
  have t1: "c1 ! label e = Text p q t g" using ne t by (simp add: c1_def)
  have s2: "coords c1 (label e) [(x1 + x nb) / 2, (y1 + y2) / 2 - 12] = Some c2"
    using b t1 by (simp add: coords_def c2_def c1_def)
  have upd: "update_edge nds e c = Inr c2"
    using na nb s1 s2
    by (simp add: update_edge_def dict_get_def Let_def x1_def y1_def y2_def)
  have len: "length c2 = length c" by (simp add: c2_def c1_def)
  have at_line: "c2 ! line e = Line x1 y1 (x nb) y2 f"
    using b ne by (simp add: c2_def c1_def)
  have at_label: "c2 ! label e = Text ((x1 + x nb) / 2) ((y1 + y2) / 2 - 12) t g"
    using b by (simp add: c2_def c1_def)
  have drawn: "edge_drawn nds c2 e"
    using na nb b len at_line at_label tt
    by (simp add: edge_drawn_def x1_def y1_def y2_def HEADER_H_def ROW_H_def)
  have ok2: "edge_items_ok c2 e"
    using b len at_line at_label tt ft by (simp add: edge_items_ok_def)
  have other: "\<forall>j. j \<noteq> line e \<longrightarrow> j \<noteq> label e \<longrightarrow> c2 ! j = c ! j"
    by (simp add: c2_def c1_def)
  show ?thesis using upd len drawn ok2 other by blast
qed

lemma edge_ids_Cons: "edge_ids (e # es) = line e # label e # edge_ids es"
  by (simp add: edge_ids_def)

lemma edge_ids_append: "edge_ids (es @ es') = edge_ids es @ edge_ids es'"
  by (simp add: edge_ids_def)

lemma edge_ids_mem: "e \<in> set es \<Longrightarrow> line e \<in> set (edge_ids es) \<and> label e \<in> set (edge_ids es)"
  by (auto simp: edge_ids_def)

lemma update_edges_inv:
  "edges_known nds es \<Longrightarrow> distinct (edge_ids (dn @ es)) \<Longrightarrow>
   list_all (edge_items_ok c) (dn @ es) \<Longrightarrow> list_all (edge_drawn nds c) dn \<Longrightarrow>
   \<exists>c'. update_edges nds es c = Inr c' \<and> length c' = length c
      \<and> list_all (edge_items_ok c') (dn @ es) \<and> list_all (edge_drawn nds c') (dn @ es)"
proof (induction es arbitrary: dn c)
  case Nil
  then show ?case by simp
next
  case (Cons e es)
  from Cons.prems(1) obtain na nb where
    n: "map_of nds (from_table e) = Some na" "map_of nds (to_table e) = Some nb"
    by (auto simp: edges_known_def)
  have ok: "edge_items_ok c e" using Cons.prems(3) by simp
  have ne: "line e \<noteq> label e"
    using Cons.prems(2) by (simp add: edge_ids_append edge_ids_Cons)
  from update_edge_ok[OF n ok ne] obtain c1 where
    c1: "update_edge nds e c = Inr c1" "length c1 = length c" "edge_drawn nds c1 e"
      "edge_items_ok c1 e" "\<And>j. j \<noteq> line e \<Longrightarrow> j \<noteq> label e \<Longrightarrow> c1 ! j = c ! j"
    by blast
  have d4: "line e \<notin> set (edge_ids dn)" "label e \<notin> set (edge_ids dn)"
    "line e \<notin> set (edge_ids es)" "label e \<notin> set (edge_ids es)"
    using Cons.prems(2) by (simp_all add: edge_ids_append edge_ids_Cons)
  have apart: "line e' \<noteq> line e \<and> line e' \<noteq> label e \<and> label e' \<noteq> line e \<and> label e' \<noteq> label e"
    if "e' \<in> set dn \<union> set es" for e'
  proof (cases "e' \<in> set dn")
    case True
    from edge_ids_mem[OF True] d4(1,2) show ?thesis by metis
  next
    case False
    with that have "e' \<in> set es" by simp
    from edge_ids_mem[OF this] d4(3,4) show ?thesis by metis
  qed
  have keep_ok: "edge_items_ok c1 e'" if "e' \<in> set dn \<union> set es" for e'
  proof -
    have "edge_items_ok c e'" using Cons.prems(3) that by (auto simp: list_all_iff)
    moreover have "c1 ! line e' = c ! line e'" "c1 ! label e' = c ! label e'"
      using apart[OF that] c1(5) by simp_all
    ultimately show ?thesis using c1(2) by (blast intro: edge_items_ok_cong)
  qed
  have keep_drawn: "edge_drawn nds c1 e'" if "e' \<in> set dn" for e'
  proof -
    have "edge_drawn nds c e'" using Cons.prems(4) that by (auto simp: list_all_iff)
    moreover have "e' \<in> set dn \<union> set es" using that by simp
    from apart[OF this] have "c1 ! line e' = c ! line e'" "c1 ! label e' = c ! label e'"
      using c1(5) by simp_all
    ultimately show ?thesis using c1(2) by (blast intro: edge_drawn_cong)
  qed
  have k1: "edges_known nds es" using Cons.prems(1) by (simp add: edges_known_def)
  have k2: "distinct (edge_ids ((dn @ [e]) @ es))" using Cons.prems(2) by simp
  have k3: "list_all (edge_items_ok c1) ((dn @ [e]) @ es)"
    unfolding list_all_iff
  proof
    fix e' assume "e' \<in> set ((dn @ [e]) @ es)"
    then have "e' = e \<or> e' \<in> set dn \<union> set es" by auto
    then show "edge_items_ok c1 e'" using keep_ok c1(4) by blast
  qed
  have k4: "list_all (edge_drawn nds c1) (dn @ [e])"
    unfolding list_all_iff
  proof
    fix e' assume "e' \<in> set (dn @ [e])"
    then have "e' = e \<or> e' \<in> set dn" by auto
    then show "edge_drawn nds c1 e'" using keep_drawn c1(3) by blast
  qed
  from Cons.IH[OF k1 k2 k3 k4] obtain c' where
    "update_edges nds es c1 = Inr c'" "length c' = length c1"
    "list_all (edge_items_ok c') ((dn @ [e]) @ es)" "list_all (edge_drawn nds c') ((dn @ [e]) @ es)"
    by blast
  then show ?case using c1(1,2) by simp
qed

lemma update_edges_wf:
  assumes "diagram_wf d" and "edges_known nds (edges d)"
  shows "\<exists>c'. update_edges nds (edges d) (canvas d) = Inr c'
           \<and> list_all (edge_drawn nds c') (edges d) \<and> diagram_wf (d\<lparr>nodes := nds, canvas := c'\<rparr>)"
proof -
  from assms have "distinct (edge_ids ([] @ edges d))" "list_all (edge_items_ok (canvas d)) ([] @ edges d)"
    by (simp_all add: diagram_wf_def)
  from update_edges_inv[OF assms(2) this] show ?thesis
    using assms by (auto simp: diagram_wf_def)
qed

lemma map_of_keys:
  "distinct (map fst xs) \<Longrightarrow> map (\<lambda>t. the (map_of xs t)) (map fst xs) = map snd xs"
proof (induction xs)
  case Nil
  then show ?case by simp
next
  case (Cons p xs)
  obtain k v where p: "p = (k, v)" by (cases p)
  from Cons.prems have nk: "k \<notin> fst ` set xs" and d: "distinct (map fst xs)"
    by (simp_all add: p)
  have "map (\<lambda>t. the (map_of (p # xs) t)) (map fst xs) = map (\<lambda>t. the (map_of xs t)) (map fst xs)"
    using nk by (intro map_cong) (auto simp: p)
  then show ?case using Cons.IH[OF d] by (simp add: p)
qed

lemma known_iff: "(map_of nds k \<noteq> None) = (k \<in> set (map fst nds))"
  by (simp add: map_of_eq_None_iff)

lemma build_some:
  assumes "show_interactive_eer schema gv fks = Inr (Some d)"
  shows "schema \<noteq> []
    \<and> place_nodes gv schema (max 1 (int_sqrt_half (length schema))) (map fst schema) 0 [] = Inr (nodes d)
    \<and> add_edges (nodes d) (enumerate 0 fks) [] [] = (edges d, canvas d)"
proof -
  from assms have ne: "schema \<noteq> []"
    by (auto simp: show_interactive_eer_def Let_def)
  from assms ne obtain nds where
    nds: "place_nodes gv schema (max 1 (int_sqrt_half (length schema))) (map fst schema) 0 [] = Inr nds"
    by (auto simp: show_interactive_eer_def Let_def split: sum.splits)
  obtain es c where ec: "add_edges nds (enumerate 0 fks) [] [] = (es, c)"
    by (cases "add_edges nds (enumerate 0 fks) [] []")
  from assms ne nds ec have "d = \<lparr>nodes = nds, edges = es, canvas = c\<rparr>"
    by (simp add: show_interactive_eer_def Let_def)
  with ne nds ec show ?thesis by simp
qed

lemma build_wf:
  assumes "show_interactive_eer schema gv fks = Inr (Some d)"
  shows "diagram_wf d \<and> list_all (edge_drawn (nodes d) (canvas d)) (edges d)"
proof -
  from build_some[OF assms] have
    "add_edges (nodes d) (enumerate 0 fks) [] [] = (edges d, canvas d)" by simp
  from add_edges_inv[OF this] show ?thesis
    by (simp add: diagram_wf_def edges_known_def edge_ids_def)
qed

lemma build_total:
  assumes "distinct (map fst schema)" and "schema \<noteq> []"
  shows "\<exists>d. show_interactive_eer schema gv fks = Inr (Some d)
           \<and> map fst (nodes d) = map fst schema
           \<and> map (\<lambda>p. name (snd p)) (nodes d) = map fst schema
           \<and> map (\<lambda>p. cols (snd p)) (nodes d) = map snd schema"
proof -
  have "set (map fst schema) \<inter> fst ` set ([]::(string \<times> TableNode) list) = {}"
    and "set (map fst schema) \<subseteq> fst ` set schema" by simp_all
  from place_nodes_any[OF assms(1) this, of gv "max 1 (int_sqrt_half (length schema))" 0]
  obtain r where r:
    "place_nodes gv schema (max 1 (int_sqrt_half (length schema))) (map fst schema) 0 [] = Inr r"
    "map fst r = map fst schema" "map (\<lambda>p. name (snd p)) r = map fst schema"
    "map (\<lambda>p. cols (snd p)) r = map (\<lambda>t. the (map_of schema t)) (map fst schema)"
    by auto
  obtain es c where ec: "add_edges r (enumerate 0 fks) [] [] = (es, c)"
    by (cases "add_edges r (enumerate 0 fks) [] []")
  have "show_interactive_eer schema gv fks = Inr (Some \<lparr>nodes = r, edges = es, canvas = c\<rparr>)"
    using assms(2) r(1) ec by (simp add: show_interactive_eer_def Let_def)
  then show ?thesis using r(2-4) map_of_keys[OF assms(1)] by auto
qed

lemma build_edges:
  assumes "show_interactive_eer schema gv fks = Inr (Some d)"
  shows "map fk (edges d) =
     filter (\<lambda>k. table k \<in> set (map fst (nodes d)) \<and> ref_table k \<in> set (map fst (nodes d))) fks"
proof -
  from build_some[OF assms] have
    "add_edges (nodes d) (enumerate 0 fks) [] [] = (edges d, canvas d)" by simp
  from add_edges_fks[OF this] have
    "map fk (edges d) =
       filter (\<lambda>k. map_of (nodes d) (table k) \<noteq> None \<and> map_of (nodes d) (ref_table k) \<noteq> None) fks"
    by simp
  then show ?thesis by (simp only: known_iff)
qed

lemma grid_loop_keys: "map fst (grid_loop c i nds) = map fst nds"
  by (induction nds arbitrary: i) (auto simp: Let_def)

lemma radial_loop_keys: "map fst (radial_loop cx cy r n i nds) = map fst nds"
  by (induction nds arbitrary: i) (auto simp: Let_def)

lemma grid_loop_positions:
  "positions (grid_loop c i nds) =
     map (\<lambda>j. (80 + real (j mod c) * 320, 80 + real (j div c) * 220)) [i..<i + length nds]"
proof (induction nds arbitrary: i)
  case Nil
  then show ?case by (simp add: positions_def)
next
  case (Cons p nds)
  obtain t nd where p: "p = (t, nd)" by (cases p)
  have "[i..<i + length (p # nds)] = i # [Suc i..<Suc i + length nds]"
    using upt_conv_Cons[of i "i + Suc (length nds)"] by simp
  then show ?case using Cons.IH[of "Suc i"]
    by (simp add: p positions_def Let_def move_def)
qed


lemma edges_known_keys:
  "map fst nds' = map fst nds \<Longrightarrow> edges_known nds es \<Longrightarrow> edges_known nds' es"
  unfolding edges_known_def known_iff by (simp only:)

lemma diagram_wf_moved:
  "diagram_wf d \<Longrightarrow> map fst nds = map fst (nodes d) \<Longrightarrow> diagram_wf (d\<lparr>nodes := nds\<rparr>)"
  by (auto simp: diagram_wf_def intro: edges_known_keys)

text \<open>The nodes after the branch of \<^verbatim>\<open>apply_layout\<close> for a mode.\<close>

lemma apply_layout_result:
  assumes wf: "diagram_wf d" and ne: "nodes d \<noteq> []"
    and nds: "nds = (if mode = ''grid'' then
                  grid_loop (max 1 (int_sqrt_half (length (nodes d)))) 0 (nodes d)
                else if mode = ''radial'' then
                  radial_loop (canvasx vp (winfo_width vp div 2)) (canvasy vp (winfo_height vp div 2))
                    (max 200 (min 800 (int (length (nodes d)) * 40))) (length (nodes d)) 0 (nodes d)
                else nodes d)"
  shows "\<exists>c. apply_layout mode vp d = Inr (d\<lparr>nodes := nds, canvas := c\<rparr>)
           \<and> list_all (edge_drawn nds c) (edges d) \<and> diagram_wf (d\<lparr>nodes := nds, canvas := c\<rparr>)"
proof -
  have keys: "map fst nds = map fst (nodes d)"
    by (simp add: nds grid_loop_keys radial_loop_keys)
  from wf have "edges_known (nodes d) (edges d)" by (simp add: diagram_wf_def)
  with keys have "edges_known nds (edges d)" by (rule edges_known_keys)
  from update_edges_wf[OF wf this] obtain c where
    c: "update_edges nds (edges d) (canvas d) = Inr c" "list_all (edge_drawn nds c) (edges d)"
      "diagram_wf (d\<lparr>nodes := nds, canvas := c\<rparr>)"
    by blast
  have "apply_layout mode vp d =
      (case update_edges nds (edges d) (canvas d) of
         Inl err \<Rightarrow> Inl err
       | Inr c' \<Rightarrow> Inr (d\<lparr>nodes := nds, canvas := c'\<rparr>))"
    using ne unfolding nds apply_layout_def Let_def by simp
  then have "apply_layout mode vp d = Inr (d\<lparr>nodes := nds, canvas := c\<rparr>)"
    by (simp only: c(1) sum.case)
  with c(2,3) show ?thesis by blast
qed

lemma apply_layout_empty: "nodes d = [] \<Longrightarrow> apply_layout mode vp d = Inr d"
  by (simp add: apply_layout_def)



lemma example_wf: "diagram_wf example_diagram"
  by (simp add: diagram_wf_def example_diagram_def edges_known_def edge_ids_def edge_items_ok_def
      label_text_def example_fk_def)

lemma dragged_wf: "diagram_wf dragged_diagram"
  by (simp add: diagram_wf_def dragged_diagram_def example_diagram_def edges_known_def edge_ids_def
      edge_items_ok_def label_text_def example_fk_def)

lemma ceiling_sqrt_2: "\<lceil>sqrt 2\<rceil> = 2"
proof (rule ceiling_unique)
  have "1 < sqrt 2" by (rule real_less_rsqrt) simp
  then show "real_of_int 2 - 1 < sqrt 2" by simp
  have "sqrt 2 \<le> 2" by (rule real_le_lsqrt) simp_all
  then show "sqrt 2 \<le> real_of_int 2" by simp
qed

lemma spec_grid_cols_2: "spec_grid_cols 2 = 2"
  by (simp add: spec_grid_cols_def ceiling_sqrt_2)

lemma apply_layout_grid:
  assumes "diagram_wf d"
  shows "\<exists>d'. apply_layout ''grid'' vp d = Inr d'
           \<and> map fst (nodes d') = map fst (nodes d)
           \<and> edges d' = edges d
           \<and> positions (nodes d') =
               map (\<lambda>i. (80 + real (i mod max 1 (int_sqrt_half (length (nodes d)))) * 320,
                          80 + real (i div max 1 (int_sqrt_half (length (nodes d)))) * 220))
                 [0..<length (nodes d)]
           \<and> diagram_wf d' \<and> list_all (edge_drawn (nodes d') (canvas d')) (edges d')
           \<and> (nodes d \<noteq> [] \<longrightarrow>
                nodes d' = grid_loop (max 1 (int_sqrt_half (length (nodes d)))) 0 (nodes d))"
proof (cases "nodes d = []")
  case True
  then have "apply_layout ''grid'' vp d = Inr d" by (rule apply_layout_empty)
  moreover have "list_all (edge_drawn (nodes d) (canvas d)) (edges d)"
    using assms True by (cases "edges d") (simp_all add: diagram_wf_def edges_known_def)
  ultimately show ?thesis using True assms by (simp add: positions_def)
next
  case False
  define nds where "nds = grid_loop (max 1 (int_sqrt_half (length (nodes d)))) 0 (nodes d)"
  have "nds = (if ''grid'' = ''grid'' then
                  grid_loop (max 1 (int_sqrt_half (length (nodes d)))) 0 (nodes d)
                else if ''grid'' = ''radial'' then
                  radial_loop (canvasx vp (winfo_width vp div 2)) (canvasy vp (winfo_height vp div 2))
                    (max 200 (min 800 (int (length (nodes d)) * 40))) (length (nodes d)) 0 (nodes d)
                else nodes d)"
    by (simp add: nds_def)
  from apply_layout_result[OF assms False this] obtain c where
    c: "apply_layout ''grid'' vp d = Inr (d\<lparr>nodes := nds, canvas := c\<rparr>)"
      "list_all (edge_drawn nds c) (edges d)" "diagram_wf (d\<lparr>nodes := nds, canvas := c\<rparr>)"
    by blast
  have "map fst nds = map fst (nodes d)" by (simp add: nds_def grid_loop_keys)
  moreover have "positions nds =
      map (\<lambda>i. (80 + real (i mod max 1 (int_sqrt_half (length (nodes d)))) * 320,
                 80 + real (i div max 1 (int_sqrt_half (length (nodes d)))) * 220))
        [0..<length (nodes d)]"
    using grid_loop_positions[of "max 1 (int_sqrt_half (length (nodes d)))" 0 "nodes d"]
    by (simp add: nds_def)
  ultimately show ?thesis using c by (intro exI[of _ "d\<lparr>nodes := nds, canvas := c\<rparr>"]) (simp add: nds_def)
qed


lemma grid_loop_length: "length (grid_loop c i nds) = length nds"
  by (induction nds arbitrary: i) (auto simp: Let_def)




lemma example_hierarchical:
  "apply_layout ''hierarchical'' example_viewport example_diagram = Inr example_diagram"
  by (simp add: apply_layout_def example_diagram_def Let_def
      update_edge_def dict_get_def coords_def HEADER_H_def ROW_H_def example_fk_def)

lemma example_positions: "positions (nodes example_diagram) = [(80, 80), (80, 300)]"
  by (simp add: positions_def example_diagram_def)

lemma spec_grid_positions_2: "spec_grid_positions 2 = [(80, 80), (400, 80)]"
proof -
  have "[0..<2] = [0, Suc 0]" by (simp add: upt_rec numeral_2_eq_2)
  then show ?thesis by (simp add: spec_grid_positions_def spec_grid_cols_2)
qed

lemma set_zoom_applied:
  assumes "0 < val" and "1 / 1000000 \<le> \<bar>val - current_scale st\<bar>" and "current_scale st \<noteq> 0"
  shows "set_zoom vp val st =
     Inr (st\<lparr>current_scale := val,
             scale_calls := scale_calls st @
               [(canvasx vp (winfo_width vp div 2), canvasy vp (winfo_height vp div 2),
                 val / current_scale st)]\<rparr>)"
  using assms by (simp add: set_zoom_def Let_def)


lemma set_zoom_scale:
  assumes "current_scale st \<noteq> 0"
  shows "\<exists>st'. set_zoom vp val st = Inr st' \<and> (st' = st \<or> current_scale st' = val)"
  using assms by (simp add: set_zoom_def Let_def)


lemma clamp_bounds: "2 / 10 \<le> max (2 / 10) (min 3 (v::real)) \<and> max (2 / 10) (min 3 v) \<le> 3"
  by simp


subsection \<open>The claims\<close>


text \<open>
  Claim C1. For a schema with \<open>N\<close> tables (a dictionary, so its keys are distinct) and any
  list of foreign keys, and whatever \<^verbatim>\<open>gv_positions\<close> is, building raises no exception;
  it makes no diagram exactly when there is no table, and otherwise the nodes are the
  tables of the schema, one each and in the order of the schema, with the columns of the
  schema, and the edges are, in order, the foreign keys whose \<^verbatim>\<open>table\<close> and \<^verbatim>\<open>ref_table\<close>
  both name a table of the schema, one edge each, from \<^verbatim>\<open>table\<close> to \<^verbatim>\<open>ref_table\<close>. A
  foreign key that names a table outside the schema leaves no edge and no trace.
\<close>

theorem build_nodes_and_edges:
  assumes "distinct (map fst schema)"
  shows "\<exists>r. show_interactive_eer schema gv_positions fk_list = Inr r
           \<and> (r = None) = (schema = [])
           \<and> (case r of
                 None \<Rightarrow> True
               | Some d \<Rightarrow>
                   length (nodes d) = length schema
                   \<and> map fst (nodes d) = map fst schema
                   \<and> map (\<lambda>p. name (snd p)) (nodes d) = map fst schema
                   \<and> map (\<lambda>p. cols (snd p)) (nodes d) = map snd schema
                   \<and> map fk (edges d) =
                       filter (\<lambda>k. table k \<in> set (map fst schema)
                                    \<and> ref_table k \<in> set (map fst schema)) fk_list
                   \<and> map from_table (edges d) = map (\<lambda>e. table (fk e)) (edges d)
                   \<and> map to_table (edges d) = map (\<lambda>e. ref_table (fk e)) (edges d))"
proof (cases "schema = []")
  case True
  then show ?thesis by (simp add: show_interactive_eer_def)
next
  case False
  from build_total[OF assms False, of gv_positions fk_list] obtain d where
    d: "show_interactive_eer schema gv_positions fk_list = Inr (Some d)"
      "map fst (nodes d) = map fst schema"
      "map (\<lambda>p. name (snd p)) (nodes d) = map fst schema"
      "map (\<lambda>p. cols (snd p)) (nodes d) = map snd schema"
    by blast
  have len: "length (nodes d) = length schema"
    using d(2) by (metis length_map)
  have es: "map fk (edges d) =
      filter (\<lambda>k. table k \<in> set (map fst schema) \<and> ref_table k \<in> set (map fst schema)) fk_list"
    using build_edges[OF d(1)] by (simp only: d(2))
  from build_wf[OF d(1)] have "list_all (edge_items_ok (canvas d)) (edges d)"
    by (simp add: diagram_wf_def)
  then have ft: "map from_table (edges d) = map (\<lambda>e. table (fk e)) (edges d)"
    "map to_table (edges d) = map (\<lambda>e. ref_table (fk e)) (edges d)"
    by (simp_all add: list_all_iff edge_items_ok_def)
  show ?thesis using False d len es ft by simp
qed

theorem build_nodes_and_edges_witness:
  "distinct (map fst example_schema)
   \<and> (\<exists>d. show_interactive_eer example_schema None [example_fk, archived_fk] = Inr (Some d)
          \<and> map fst (nodes d) = [''users'', ''orders''] \<and> map fk (edges d) = [example_fk])"
proof -
  have dist: "distinct (map fst example_schema)" by (simp add: example_schema_def)
  from build_nodes_and_edges[OF dist, of None "[example_fk, archived_fk]"] obtain r where
    r: "show_interactive_eer example_schema None [example_fk, archived_fk] = Inr r"
      "(r = None) = (example_schema = [])"
      "(case r of None \<Rightarrow> True
        | Some d \<Rightarrow> length (nodes d) = length example_schema
            \<and> map fst (nodes d) = map fst example_schema
            \<and> map (\<lambda>p. name (snd p)) (nodes d) = map fst example_schema
            \<and> map (\<lambda>p. cols (snd p)) (nodes d) = map snd example_schema
            \<and> map fk (edges d) =
                filter (\<lambda>k. table k \<in> set (map fst example_schema)
                             \<and> ref_table k \<in> set (map fst example_schema))
                  [example_fk, archived_fk]
            \<and> map from_table (edges d) = map (\<lambda>e. table (fk e)) (edges d)
            \<and> map to_table (edges d) = map (\<lambda>e. ref_table (fk e)) (edges d))"
    by blast
  from r(2) obtain d where d: "r = Some d" by (auto simp: example_schema_def)
  from r(3) have "map fst (nodes d) = [''users'', ''orders'']" "map fk (edges d) = [example_fk]"
    by (simp_all add: d example_schema_def example_fk_def archived_fk_def)
  with r(1) dist show ?thesis by (simp add: d)
qed

text \<open>
  Claim C2, as amended. The grid layout keeps the nodes in their order and puts node \<open>i\<close>
  at \<open>(80 + (i mod c) * 320, 80 + (i div c) * 220)\<close>: row-major, pitch 320 by 220, origin
  \<open>(80, 80)\<close>, where the number of columns \<open>c\<close> is \<^verbatim>\<open>max(1, int(sqrt(n) + 0.5))\<close>, the
  square root of the node count rounded to the nearest integer, not rounded up. It raises
  no exception.
\<close>

theorem grid_layout_rounded_columns:
  assumes "diagram_wf d"
  shows "\<exists>d'. apply_layout ''grid'' vp d = Inr d'
           \<and> map fst (nodes d') = map fst (nodes d)
           \<and> positions (nodes d') =
               map (\<lambda>i. (80 + real (i mod max 1 (int_sqrt_half (length (nodes d)))) * 320,
                          80 + real (i div max 1 (int_sqrt_half (length (nodes d)))) * 220))
                 [0..<length (nodes d)]"
  using apply_layout_grid[OF assms, of vp] by blast

theorem grid_layout_rounded_columns_witness:
  "diagram_wf dragged_diagram
   \<and> (\<exists>d'. apply_layout ''grid'' example_viewport dragged_diagram = Inr d'
          \<and> map fst (nodes d') = [''users'', ''orders'']
          \<and> positions (nodes d') = [(80, 80), (80, 300)])"
proof -
  from grid_layout_rounded_columns[OF dragged_wf, of example_viewport] obtain d' where
    d': "apply_layout ''grid'' example_viewport dragged_diagram = Inr d'"
      "map fst (nodes d') = map fst (nodes dragged_diagram)"
      "positions (nodes d') =
         map (\<lambda>i. (80 + real (i mod max 1 (int_sqrt_half (length (nodes dragged_diagram)))) * 320,
                    80 + real (i div max 1 (int_sqrt_half (length (nodes dragged_diagram)))) * 220))
           [0..<length (nodes dragged_diagram)]"
    by blast
  have "map fst (nodes d') = [''users'', ''orders'']"
    using d'(2) by (simp add: dragged_diagram_def example_diagram_def)
  moreover have "positions (nodes d') = [(80, 80), (80, 300)]"
    using d'(3) by (simp add: dragged_diagram_def example_diagram_def int_sqrt_half_2)
  ultimately show ?thesis using d'(1) dragged_wf
    by - (rule conjI, assumption, rule exI[of _ d'], simp)
qed

text \<open>
  The claim as stated fails on the schema of its own scenario: for the two tables
  \<^verbatim>\<open>users\<close> and \<^verbatim>\<open>orders\<close> the code computes \<^verbatim>\<open>int(sqrt(2) + 0.5) = 1\<close> column, so
  \<^verbatim>\<open>orders\<close> stands in row 1, column 0, at \<open>(80, 300)\<close>, while \<open>ceil(sqrt(2)) = 2\<close> columns
  would put it in row 0, column 1, at \<open>(400, 80)\<close>.
\<close>

theorem grid_two_tables_counterexample:
  "show_interactive_eer example_schema None [example_fk] = Inr (Some example_diagram)
   \<and> apply_layout ''grid'' example_viewport example_diagram = Inr example_diagram
   \<and> positions (nodes example_diagram) = [(80, 80), (80, 300)]
   \<and> spec_grid_positions (length (nodes example_diagram)) = [(80, 80), (400, 80)]
   \<and> positions (nodes example_diagram) \<noteq> spec_grid_positions (length (nodes example_diagram))"
proof -
  have "length (nodes example_diagram) = 2" by (simp add: example_diagram_def)
  then show ?thesis
    by (simp add: example_build example_grid example_positions spec_grid_positions_2)
qed





text \<open>
  Claim C9, as amended. A layout kind other than \<^verbatim>\<open>grid\<close> and \<^verbatim>\<open>radial\<close> raises nothing:
  the call returns, no node has moved, the edges are the same and are redrawn where the
  nodes are.
\<close>

theorem unknown_layout_moves_nothing:
  assumes "diagram_wf d" and "mode \<noteq> ''grid''" and "mode \<noteq> ''radial''"
  shows "\<exists>d'. apply_layout mode vp d = Inr d' \<and> nodes d' = nodes d \<and> edges d' = edges d
           \<and> list_all (edge_drawn (nodes d') (canvas d')) (edges d')"
proof (cases "nodes d = []")
  case True
  then have "apply_layout mode vp d = Inr d" by (rule apply_layout_empty)
  moreover have "list_all (edge_drawn (nodes d) (canvas d)) (edges d)"
    using assms(1) True by (cases "edges d") (simp_all add: diagram_wf_def edges_known_def)
  ultimately show ?thesis by simp
next
  case False
  have "nodes d = (if mode = ''grid'' then
                  grid_loop (max 1 (int_sqrt_half (length (nodes d)))) 0 (nodes d)
                else if mode = ''radial'' then
                  radial_loop (canvasx vp (winfo_width vp div 2)) (canvasy vp (winfo_height vp div 2))
                    (max 200 (min 800 (int (length (nodes d)) * 40))) (length (nodes d)) 0 (nodes d)
                else nodes d)"
    using assms(2,3) by simp
  from apply_layout_result[OF assms(1) False this] obtain c where
    "apply_layout mode vp d = Inr (d\<lparr>nodes := nodes d, canvas := c\<rparr>)"
    "list_all (edge_drawn (nodes d) c) (edges d)"
    by blast
  then show ?thesis by simp
qed

theorem unknown_layout_moves_nothing_witness:
  "diagram_wf dragged_diagram \<and> ''hierarchical'' \<noteq> ''grid'' \<and> ''hierarchical'' \<noteq> ''radial''
   \<and> (\<exists>d'. apply_layout ''hierarchical'' example_viewport dragged_diagram = Inr d'
          \<and> nodes d' = nodes dragged_diagram
          \<and> positions (nodes d') = [(95, 40), (95, 260)])"
proof -
  have a: "''hierarchical'' \<noteq> ''grid''" and b: "''hierarchical'' \<noteq> ''radial''" by simp_all
  from unknown_layout_moves_nothing[OF dragged_wf a b, of example_viewport] obtain d' where
    d': "apply_layout ''hierarchical'' example_viewport dragged_diagram = Inr d'"
      "nodes d' = nodes dragged_diagram"
    by blast
  have "positions (nodes d') = [(95, 40), (95, 260)]"
    by (simp add: d'(2) positions_def dragged_diagram_def example_diagram_def move_def)
  with d' dragged_wf show ?thesis
    by - (intro conjI, assumption, simp, simp, rule exI[of _ d'], simp)
qed

text \<open>
  The claim as stated fails for \<^verbatim>\<open>hierarchical\<close>, which the layout box of the window
  offers: the call returns the diagram as it was and raises no exception of any kind.
\<close>

theorem hierarchical_layout_counterexample:
  "apply_layout ''hierarchical'' example_viewport example_diagram = Inr example_diagram
   \<and> (\<forall>e. apply_layout ''hierarchical'' example_viewport example_diagram \<noteq> Inl e)"
  by (simp add: example_hierarchical)



lemma example_keys: "map fst (nodes dragged_diagram) = map fst (nodes example_diagram)"
  by (simp add: dragged_diagram_def example_diagram_def)


lemma dragged_redraw:
  "update_edges (nodes dragged_diagram) (edges example_diagram) (canvas example_diagram) =
     Inr [Line 315 298 95 78 ''#ff5555'',
          Text 205 176 (''orders.user_id '' @ arrow @ '' users.id'') ''#ff5555'']"
  by (simp add: dragged_diagram_def example_diagram_def move_def update_edge_def dict_get_def
      coords_def HEADER_H_def ROW_H_def example_fk_def Let_def)

text \<open>
  Claim C5, as amended. At the first draw and at every redraw, for every edge, the line
  and the label are placed from the positions and widths the two nodes have then: the line
  starts at the right side of the source box and ends at the left side of the target box,
  both ends \<open>HEADER_H + ROW_H / 2 = 38\<close> below the top of the box, which is the middle of
  the first column row and not of the header; the label reads
  \<^verbatim>\<open>{from_table}.{from_column} -> {to_table}.{to_column}\<close> and stands 12 above the middle of
  the line. An edge holds the ids of its two items, the two table names and the foreign
  key, and no position: whatever coordinates its items had, a redraw sets them from the
  nodes, for any positions of the nodes, and raises nothing.
\<close>

theorem edges_drawn_from_nodes:
  "(show_interactive_eer schema gv_positions fk_list = Inr (Some d) \<longrightarrow>
      diagram_wf d \<and> list_all (edge_drawn (nodes d) (canvas d)) (edges d))
   \<and> (diagram_wf d2 \<and> map fst nds = map fst (nodes d2) \<longrightarrow>
        (\<exists>c. update_edges nds (edges d2) (canvas d2) = Inr c
            \<and> list_all (edge_drawn nds c) (edges d2)
            \<and> diagram_wf (d2\<lparr>nodes := nds, canvas := c\<rparr>)))"
proof (rule conjI; rule impI)
  assume "show_interactive_eer schema gv_positions fk_list = Inr (Some d)"
  then show "diagram_wf d \<and> list_all (edge_drawn (nodes d) (canvas d)) (edges d)"
    by (rule build_wf)
next
  assume a: "diagram_wf d2 \<and> map fst nds = map fst (nodes d2)"
  then have "edges_known (nodes d2) (edges d2)" by (simp add: diagram_wf_def)
  with a have "edges_known nds (edges d2)" by (blast intro: edges_known_keys)
  with a show "\<exists>c. update_edges nds (edges d2) (canvas d2) = Inr c
            \<and> list_all (edge_drawn nds c) (edges d2)
            \<and> diagram_wf (d2\<lparr>nodes := nds, canvas := c\<rparr>)"
    by (blast intro: update_edges_wf)
qed

theorem edges_drawn_from_nodes_witness:
  "show_interactive_eer example_schema None [example_fk] = Inr (Some example_diagram)
   \<and> list_all (edge_drawn (nodes example_diagram) (canvas example_diagram)) (edges example_diagram)
   \<and> diagram_wf example_diagram
   \<and> map fst (nodes dragged_diagram) = map fst (nodes example_diagram)
   \<and> (\<exists>c. update_edges (nodes dragged_diagram) (edges example_diagram) (canvas example_diagram) = Inr c
         \<and> list_all (edge_drawn (nodes dragged_diagram) c) (edges example_diagram)
         \<and> c = [Line 315 298 95 78 ''#ff5555'',
                Text 205 176 (''orders.user_id '' @ arrow @ '' users.id'') ''#ff5555''])"
proof -
  note inst = edges_drawn_from_nodes[of example_schema None "[example_fk]" example_diagram
      example_diagram "nodes dragged_diagram"]
  from inst example_build have
    a: "list_all (edge_drawn (nodes example_diagram) (canvas example_diagram)) (edges example_diagram)"
    by blast
  from inst example_wf example_keys obtain c where
    c: "update_edges (nodes dragged_diagram) (edges example_diagram) (canvas example_diagram) = Inr c"
      "list_all (edge_drawn (nodes dragged_diagram) c) (edges example_diagram)"
    by blast
  from c(1) have "c = [Line 315 298 95 78 ''#ff5555'',
                Text 205 176 (''orders.user_id '' @ arrow @ '' users.id'') ''#ff5555'']"
    by (simp add: dragged_redraw)
  with a c example_build example_wf example_keys show ?thesis
    by - (intro conjI, assumption, assumption, assumption, assumption, rule exI[of _ c], simp)
qed

text \<open>
  The claim as stated fails on the diagram of the scenario: the line from \<^verbatim>\<open>orders\<close> at
  \<open>(80, 300)\<close> to \<^verbatim>\<open>users\<close> at \<open>(80, 80)\<close> runs from \<open>y = 338\<close> to \<open>y = 118\<close>, while the
  middles of the two headers are at \<open>y = 314\<close> and \<open>y = 94\<close>; and the label stands at
  \<open>y = 216\<close>, while the middle of the line is at \<open>y = 228\<close>.
\<close>

theorem edge_anchor_counterexample:
  "show_interactive_eer example_schema None [example_fk] = Inr (Some example_diagram)
   \<and> canvas example_diagram ! line (edges example_diagram ! 0) = Line 300 338 80 118 ''#ff5555''
   \<and> canvas example_diagram ! label (edges example_diagram ! 0) =
       Text 190 216 (label_text ''orders'' ''user_id'' ''users'' ''id'') ''#ff5555''
   \<and> y (snd (nodes example_diagram ! 1)) + real_of_int HEADER_H / 2 = 314
   \<and> y (snd (nodes example_diagram ! 0)) + real_of_int HEADER_H / 2 = 94
   \<and> \<not> list_all (spec_edge_drawn (nodes example_diagram) (canvas example_diagram))
         (edges example_diagram)"
  by (simp add: example_build)
     (simp add: example_diagram_def spec_edge_drawn_def HEADER_H_def example_fk_def label_text_def)




end
